theory Spec2Isabelle
  imports Main
begin

section \<open>Bytes, text and Python values\<close>

text \<open>
  A Python \<open>bytes\<close> object is a list of 8-bit characters; the text values handled by
  \<open>send_iso_authorization\<close> (PAN, expiry, CVV, field values) are ASCII text and are lists
  of the same characters.
\<close>

type_synonym bytes = string

datatype pyval = PyBool bool | PyStr string | PyNone

type_synonym pydict = "string \<rightharpoonup> pyval"

text \<open>
  The exceptions that can be raised inside the \<open>try\<close> block, by the statement that
  raises them. All of them are subclasses of \<open>Exception\<close>; the payload is \<open>str(e)\<close>.
\<close>

datatype error =
    PlainException string
  | StructError string
  | OSError string
  | CodecError string

fun str :: "error \<Rightarrow> string" where
  "str (PlainException s) = s"
| "str (StructError s) = s"
| "str (OSError s) = s"
| "str (CodecError s) = s"

section \<open>Decimal formatting\<close>

definition digit_char :: "nat \<Rightarrow> char" where
  "digit_char d = char_of (48 + d)"

text \<open>\<open>str(n)\<close> of a non-negative integer: its decimal digits, no leading zero.\<close>

fun dec :: "nat \<Rightarrow> string" where
  "dec n = (if n < 10 then [digit_char n] else dec (n div 10) @ [digit_char (n mod 10)])"

declare dec.simps [simp del]

definition zfill :: "nat \<Rightarrow> string \<Rightarrow> string" where
  "zfill w s = replicate (w - length s) (CHR ''0'') @ s"

text \<open>
  \<open>f"{amount_cents:012}"\<close> on a Python \<open>int\<close>: the zero flag pads between the sign and
  the digits up to a minimum width of 12; a longer number is not cut.
\<close>

definition format_012 :: "int \<Rightarrow> string" where
  "format_012 i =
     (if i < 0 then CHR ''-'' # zfill 11 (dec (nat (- i))) else zfill 12 (dec (nat i)))"

text \<open>The \<open>w\<close> low-order decimal digits of \<open>n\<close>, most significant first.\<close>

fun digits_w :: "nat \<Rightarrow> nat \<Rightarrow> string" where
  "digits_w 0 n = []"
| "digits_w (Suc w) n = digits_w w (n div 10) @ [digit_char (n mod 10)]"

text \<open>
  \<open>datetime.datetime.utcnow()\<close> is an input of the call; \<open>strftime("%m%d%H%M%S")\<close>
  prints five of its components with two digits each.
\<close>

record datetime =
  dt_month :: nat
  dt_day :: nat
  dt_hour :: nat
  dt_minute :: nat
  dt_second :: nat

definition strftime_mdHMS :: "datetime \<Rightarrow> string" where
  "strftime_mdHMS now =
     zfill 2 (dec (dt_month now)) @ zfill 2 (dec (dt_day now)) @ zfill 2 (dec (dt_hour now))
       @ zfill 2 (dec (dt_minute now)) @ zfill 2 (dec (dt_second now))"

section \<open>The ISO 8583 message object\<close>

text \<open>
  Modelled from the spec: the class \<open>Iso8583\<close> comes from the imported package
  \<open>pyiso8583\<close>, which is not under src/. The object is the spec's Message, an MTI and a
  FieldMap from field numbers to values; \<open>set_mti\<close> and \<open>set_bit\<close> store a value,
  \<open>get_mti\<close> and \<open>get_bit\<close> read it, and a field that is not present reads as \<open>None\<close>.
\<close>

record iso8583 =
  mti :: string
  bits :: "nat \<rightharpoonup> string"

definition new_iso8583 :: iso8583 where
  "new_iso8583 = \<lparr>mti = [], bits = Map.empty\<rparr>"

definition set_mti :: "string \<Rightarrow> iso8583 \<Rightarrow> iso8583" where
  "set_mti v iso_req = iso_req\<lparr>mti := v\<rparr>"

definition set_bit :: "nat \<Rightarrow> string \<Rightarrow> iso8583 \<Rightarrow> iso8583" where
  "set_bit n v iso_req = iso_req\<lparr>bits := (bits iso_req)(n \<mapsto> v)\<rparr>"

definition get_mti :: "iso8583 \<Rightarrow> pyval" where
  "get_mti iso_req = PyStr (mti iso_req)"

definition get_bit :: "nat \<Rightarrow> iso8583 \<Rightarrow> pyval" where
  "get_bit n iso_req = (case bits iso_req n of None \<Rightarrow> PyNone | Some v \<Rightarrow> PyStr v)"

text \<open>
  The two conversions of the library between a message object and its network bytes
  (\<open>get_network_message\<close>, \<open>set_network_message\<close>) are parameters of the model. Either may
  raise.
\<close>

record codec =
  get_network_message :: "iso8583 \<Rightarrow> error + bytes"
  set_network_message :: "bytes \<Rightarrow> error + iso8583"

section \<open>The sockets\<close>

text \<open>
  What the network does is an input of the call: whether \<open>socket.socket\<close> and
  \<open>connect\<close> raise, whether \<open>sendall\<close> raises after writing some of its bytes, and what the
  peer delivers in answer to the bytes it got. The peer's answer is a list of events, each
  a non-blocking arrival of bytes or a fault of \<open>recv\<close> (the 10 second timeout, a reset);
  after the last event the peer has closed the connection.
\<close>

datatype rx_event = Arrive bytes | RecvFault error

record network =
  socket_fault :: "error option"
  connect_fault :: "string \<Rightarrow> int \<Rightarrow> error option"
  send_fault :: "(nat \<times> error) option"
  peer :: "bytes \<Rightarrow> rx_event list"

datatype sock_status = Unconnected | Connected | Closed

record sock =
  status :: sock_status
  sent :: bytes
  rx :: "rx_event list"

text \<open>The bytes that have left through a socket; none when no socket exists.\<close>

definition transmitted :: "sock option \<Rightarrow> bytes" where
  "transmitted s = (case s of None \<Rightarrow> [] | Some k \<Rightarrow> sent k)"

text \<open>\<open>struct.pack("!H", n)\<close> and \<open>struct.unpack("!H", b)[0]\<close>.\<close>

definition pack_H :: "nat \<Rightarrow> error + bytes" where
  "pack_H n =
     (if n \<le> 65535 then Inr [char_of (n div 256), char_of (n mod 256)]
      else Inl (StructError (CHR 0x27 # ''H'' @ CHR 0x27 # '' format requires 0 <= number <= 65535'')))"

fun unpack_H :: "bytes \<Rightarrow> error + nat" where
  "unpack_H [hi, lo] = Inr (of_char hi * 256 + of_char lo)"
| "unpack_H _ = Inl (StructError ''unpack requires a buffer of 2 bytes'')"

text \<open>
  \<open>sock.sendall(data)\<close>: all of \<open>data\<close> is written, or the call raises after writing the
  first \<open>k\<close> bytes.
\<close>

definition sendall :: "(nat \<times> error) option \<Rightarrow> bytes \<Rightarrow> sock \<Rightarrow> (error + unit) \<times> sock" where
  "sendall fault data s =
     (case fault of
        None \<Rightarrow> (Inr (), s\<lparr>sent := sent s @ data\<rparr>)
      | Some (k, e) \<Rightarrow> (Inl e, s\<lparr>sent := sent s @ take k data\<rparr>))"

text \<open>
  \<open>sock.recv(n)\<close> on the pending events: at most \<open>n\<close> bytes of the next arrival (what is
  left of it stays pending), the empty bytes object once the peer has closed, or the fault.
\<close>

fun recv :: "nat \<Rightarrow> rx_event list \<Rightarrow> (error + bytes) \<times> rx_event list" where
  "recv n [] = (Inr [], [])"
| "recv n (RecvFault e # pending) = (Inl e, pending)"
| "recv n (Arrive bs # pending) =
     (if bs = [] then recv n pending
      else if length bs \<le> n then (Inr bs, pending)
      else (Inr (take n bs), Arrive (drop n bs) # pending))"

text \<open>The \<open>while len(response) < length\<close> loop (lines 44 to 48).\<close>

function recv_body :: "nat \<Rightarrow> bytes \<Rightarrow> rx_event list \<Rightarrow> (error + bytes) \<times> rx_event list" where
  "recv_body len response pending =
     (if length response < len then
        (case recv (len - length response) pending of
           (Inl e, pending') \<Rightarrow> (Inl e, pending')
         | (Inr chunk, pending') \<Rightarrow>
             if chunk = [] then (Inl (PlainException ''Socket connection broken''), pending')
             else recv_body len (response @ chunk) pending')
      else (Inr response, pending))"
  by pat_completeness auto
termination
  by (relation "measure (\<lambda>(len, response, pending). len - length response)")
    (auto simp: neq_Nil_conv)

declare recv_body.simps [simp del]

text \<open>Lines 38 to 48: the length header, then the body.\<close>

definition recv_frame :: "rx_event list \<Rightarrow> (error + bytes) \<times> rx_event list" where
  "recv_frame pending =
     (case recv 2 pending of
        (Inl e, pending') \<Rightarrow> (Inl e, pending')
      | (Inr raw_len, pending') \<Rightarrow>
          if length raw_len < 2
          then (Inl (PlainException ''Incomplete 2-byte header received''), pending')
          else (case unpack_H raw_len of
                  Inl e \<Rightarrow> (Inl e, pending')
                | Inr len \<Rightarrow> recv_body len [] pending'))"

section \<open>The authorization call\<close>

text \<open>Lines 12 to 27: the request message.\<close>

definition build_request :: "string \<Rightarrow> string \<Rightarrow> string \<Rightarrow> int \<Rightarrow> datetime \<Rightarrow> iso8583" where
  "build_request pan expiry cvv amount_cents now =
     (set_bit 49 ''840''
     (set_bit 41 ''TERMID01''
     (set_bit 35 (pan @ ''D'' @ expiry @ cvv)
     (set_bit 25 ''00''
     (set_bit 22 ''901''
     (set_bit 18 ''5999''
     (set_bit 14 expiry
     (set_bit 11 ''123456''
     (set_bit 7 (strftime_mdHMS now)
     (set_bit 4 (format_012 amount_cents)
     (set_bit 3 ''000000''
     (set_bit 2 pan
     (set_mti ''0100'' new_iso8583)))))))))))))"

text \<open>Lines 54 to 60: the dictionary returned for a decoded response.\<close>

definition decision :: "iso8583 \<Rightarrow> pydict" where
  "decision iso_response =
     [''approved'' \<mapsto> PyBool (get_bit 39 iso_response = PyStr ''00''),
      ''field39'' \<mapsto> get_bit 39 iso_response,
      ''mti'' \<mapsto> get_mti iso_response,
      ''amount_received'' \<mapsto> get_bit 4 iso_response,
      ''transaction_time'' \<mapsto> get_bit 12 iso_response]"

text \<open>Lines 64 to 68: the dictionary returned by the \<open>except\<close> clause.\<close>

definition failure :: "error \<Rightarrow> pydict" where
  "failure e =
     [''approved'' \<mapsto> PyBool False,
      ''error'' \<mapsto> PyStr (str e),
      ''field39'' \<mapsto> PyStr ''96'']"

text \<open>
  The body of the \<open>try\<close> block. It returns the dictionary or the exception raised, and
  the socket as the block leaves it (\<open>None\<close> when no socket was created).
\<close>

definition try_block ::
  "codec \<Rightarrow> network \<Rightarrow> datetime \<Rightarrow> string \<Rightarrow> int \<Rightarrow> string \<Rightarrow> string \<Rightarrow> string \<Rightarrow> int
     \<Rightarrow> (error + pydict) \<times> sock option" where
  "try_block c net now host port pan expiry cvv amount_cents =
     (let iso_req = build_request pan expiry cvv amount_cents now in
      case get_network_message c iso_req of
        Inl e \<Rightarrow> (Inl e, None)
      | Inr msg \<Rightarrow>
     (case socket_fault net of
        Some e \<Rightarrow> (Inl e, None)
      | None \<Rightarrow>
     (let s0 = \<lparr>status = Unconnected, sent = [], rx = []\<rparr> in
      case connect_fault net host port of
        Some e \<Rightarrow> (Inl e, Some s0)
      | None \<Rightarrow>
     (let s1 = s0\<lparr>status := Connected\<rparr> in
      case pack_H (length msg) of
        Inl e \<Rightarrow> (Inl e, Some s1)
      | Inr hdr \<Rightarrow>
     (case sendall (send_fault net) (hdr @ msg) s1 of
        (Inl e, s2) \<Rightarrow> (Inl e, Some s2)
      | (Inr u, s2) \<Rightarrow>
     (case recv_frame (peer net (sent s2)) of
        (Inl e, pending) \<Rightarrow> (Inl e, Some (s2\<lparr>rx := pending\<rparr>))
      | (Inr response, pending) \<Rightarrow>
     (let s3 = s2\<lparr>rx := pending, status := Closed\<rparr> in
      case set_network_message c response of
        Inl e \<Rightarrow> (Inl e, Some s3)
      | Inr iso_response \<Rightarrow> (Inr (decision iso_response), Some s3))))))))"

definition send_iso_authorization ::
  "codec \<Rightarrow> network \<Rightarrow> datetime \<Rightarrow> string \<Rightarrow> int \<Rightarrow> string \<Rightarrow> string \<Rightarrow> string \<Rightarrow> int
     \<Rightarrow> pydict \<times> sock option" where
  "send_iso_authorization c net now host port pan expiry cvv amount_cents =
     (case try_block c net now host port pan expiry cvv amount_cents of
        (Inl e, s) \<Rightarrow> (failure e, s)
      | (Inr d, s) \<Rightarrow> (d, s))"

section \<open>The field dictionary and the message codec\<close>

text \<open>
  Modelled from the spec: the encoder and decoder behind \<open>get_network_message\<close> and
  \<open>set_network_message\<close> belong to the imported package \<open>pyiso8583\<close>, which is not under
  src/. What follows is the Field Dictionary of section 4.1 and the Message Codec of
  section 4.2 of the specification: a 4-byte MTI, an 8-byte binary primary bitmap whose
  most significant bit stands for field 1, and the present fields in ascending order, a
  fixed-length field as it is and a variable-length field behind a 2-digit decimal length.
  Where the specification is silent the model takes the usual convention and says so:
  the dictionary's fields without a stated kind are alphanumeric, field 35 may be as long
  as two digits can announce, a short numeric value is padded with zeros on the left and
  any other short value with spaces on the right, and bytes after the last field are
  ignored by the decoder.
\<close>

datatype kind = Numeric | Alphanumeric | Binary

datatype length_rule = Fixed nat | VariableLVAR | VariableLLVAR

record field_spec =
  number :: nat
  kind :: kind
  length_rule :: length_rule
  max_len :: nat

datatype codec_error = UnknownField nat | EncodingError | TruncatedMessage | MalformedField

definition field_dictionary :: "field_spec list" where
  "field_dictionary =
     [\<lparr>number = 2, kind = Numeric, length_rule = VariableLLVAR, max_len = 19\<rparr>,
      \<lparr>number = 3, kind = Numeric, length_rule = Fixed 6, max_len = 6\<rparr>,
      \<lparr>number = 4, kind = Numeric, length_rule = Fixed 12, max_len = 12\<rparr>,
      \<lparr>number = 7, kind = Numeric, length_rule = Fixed 10, max_len = 10\<rparr>,
      \<lparr>number = 11, kind = Numeric, length_rule = Fixed 6, max_len = 6\<rparr>,
      \<lparr>number = 12, kind = Numeric, length_rule = Fixed 6, max_len = 6\<rparr>,
      \<lparr>number = 14, kind = Numeric, length_rule = Fixed 4, max_len = 4\<rparr>,
      \<lparr>number = 18, kind = Numeric, length_rule = Fixed 4, max_len = 4\<rparr>,
      \<lparr>number = 22, kind = Alphanumeric, length_rule = Fixed 3, max_len = 3\<rparr>,
      \<lparr>number = 25, kind = Alphanumeric, length_rule = Fixed 2, max_len = 2\<rparr>,
      \<lparr>number = 35, kind = Alphanumeric, length_rule = VariableLLVAR, max_len = 99\<rparr>,
      \<lparr>number = 39, kind = Alphanumeric, length_rule = Fixed 2, max_len = 2\<rparr>,
      \<lparr>number = 41, kind = Alphanumeric, length_rule = Fixed 8, max_len = 8\<rparr>,
      \<lparr>number = 49, kind = Numeric, length_rule = Fixed 3, max_len = 3\<rparr>]"

definition lookup :: "nat \<Rightarrow> codec_error + field_spec" where
  "lookup n =
     (case find (\<lambda>fs. number fs = n) field_dictionary of
        None \<Rightarrow> Inl (UnknownField n)
      | Some fs \<Rightarrow> Inr fs)"

definition is_digit :: "char \<Rightarrow> bool" where
  "is_digit c = (48 \<le> (of_char c :: nat) \<and> (of_char c :: nat) \<le> 57)"

definition is_alnum :: "char \<Rightarrow> bool" where
  "is_alnum c =
     (is_digit c \<or> (65 \<le> (of_char c :: nat) \<and> (of_char c :: nat) \<le> 90)
        \<or> (97 \<le> (of_char c :: nat) \<and> (of_char c :: nat) \<le> 122))"

fun class_ok :: "kind \<Rightarrow> string \<Rightarrow> bool" where
  "class_ok Numeric v = list_all is_digit v"
| "class_ok Alphanumeric v = list_all is_alnum v"
| "class_ok Binary v = True"

definition pad :: "kind \<Rightarrow> nat \<Rightarrow> string \<Rightarrow> string" where
  "pad k n v =
     (if k = Numeric then zfill n v else v @ replicate (n - length v) (CHR '' ''))"

definition encode_value :: "field_spec \<Rightarrow> string \<Rightarrow> codec_error + bytes" where
  "encode_value fs v =
     (if \<not> class_ok (kind fs) v then Inl EncodingError
      else case length_rule fs of
        Fixed n \<Rightarrow> if n < length v then Inl EncodingError else Inr (pad (kind fs) n v)
      | _ \<Rightarrow>
          if max_len fs < length v \<or> 99 < length v then Inl EncodingError
          else Inr (zfill 2 (dec (length v)) @ v))"

fun encode_fields :: "nat list \<Rightarrow> (nat \<rightharpoonup> string) \<Rightarrow> codec_error + bytes" where
  "encode_fields [] f = Inr []"
| "encode_fields (k # ks) f =
     (case f k of
        None \<Rightarrow> encode_fields ks f
      | Some v \<Rightarrow>
          (case lookup k of
             Inl e \<Rightarrow> Inl e
           | Inr fs \<Rightarrow>
               (case encode_value fs v of
                  Inl e \<Rightarrow> Inl e
                | Inr b \<Rightarrow>
                    (case encode_fields ks f of
                       Inl e \<Rightarrow> Inl e
                     | Inr rest \<Rightarrow> Inr (b @ rest)))))"

definition bitmap_byte :: "(nat \<Rightarrow> bool) \<Rightarrow> nat \<Rightarrow> char" where
  "bitmap_byte p j =
     Char (p (8 * j + 8)) (p (8 * j + 7)) (p (8 * j + 6)) (p (8 * j + 5))
          (p (8 * j + 4)) (p (8 * j + 3)) (p (8 * j + 2)) (p (8 * j + 1))"

definition primary_bitmap :: "(nat \<rightharpoonup> string) \<Rightarrow> bytes" where
  "primary_bitmap f = map (bitmap_byte (\<lambda>k. k \<noteq> 1 \<and> f k \<noteq> None)) [0..<8]"

definition required_fields :: "string \<Rightarrow> nat list" where
  "required_fields m = (if m = ''0100'' then [2, 3, 4, 7, 11] else [])"

definition encode :: "iso8583 \<Rightarrow> codec_error + bytes" where
  "encode m =
     (if \<not> list_all (\<lambda>k. bits m k \<noteq> None) (required_fields (mti m)) then Inl EncodingError
      else case encode_fields [2..<65] (bits m) of
        Inl e \<Rightarrow> Inl e
      | Inr body \<Rightarrow> Inr (mti m @ primary_bitmap (bits m) @ body))"

definition byte_bits :: "char \<Rightarrow> bool list" where
  "byte_bits c =
     [digit7 c, digit6 c, digit5 c, digit4 c, digit3 c, digit2 c, digit1 c, digit0 c]"

definition bit_set :: "bytes \<Rightarrow> nat \<Rightarrow> bool" where
  "bit_set bm k =
     (1 \<le> k \<and> k \<le> 8 * length bm \<and> byte_bits (bm ! ((k - 1) div 8)) ! ((k - 1) mod 8))"

definition digit_value :: "char \<Rightarrow> nat" where
  "digit_value c = of_char c - 48"

definition decode_value :: "field_spec \<Rightarrow> bytes \<Rightarrow> codec_error + (string \<times> bytes)" where
  "decode_value fs bs =
     (case length_rule fs of
        Fixed n \<Rightarrow>
          if length bs < n then Inl TruncatedMessage else Inr (take n bs, drop n bs)
      | _ \<Rightarrow>
          if length bs < 2 then Inl TruncatedMessage
          else if \<not> list_all is_digit (take 2 bs) then Inl MalformedField
          else
            (let l = 10 * digit_value (bs ! 0) + digit_value (bs ! 1) in
             if length bs < 2 + l then Inl TruncatedMessage
             else Inr (take l (drop 2 bs), drop (2 + l) bs)))"

fun decode_fields :: "nat list \<Rightarrow> (nat \<Rightarrow> bool) \<Rightarrow> bytes \<Rightarrow> codec_error + (nat \<rightharpoonup> string)" where
  "decode_fields [] p bs = Inr Map.empty"
| "decode_fields (k # ks) p bs =
     (if p k then
        (case lookup k of
           Inl e \<Rightarrow> Inl e
         | Inr fs \<Rightarrow>
             (case decode_value fs bs of
                Inl e \<Rightarrow> Inl e
              | Inr (v, rest) \<Rightarrow>
                  (case decode_fields ks p rest of
                     Inl e \<Rightarrow> Inl e
                   | Inr f \<Rightarrow> Inr (f(k \<mapsto> v)))))
      else decode_fields ks p bs)"

definition decode :: "bytes \<Rightarrow> codec_error + iso8583" where
  "decode bs =
     (if length bs < 12 then Inl TruncatedMessage
      else case decode_fields [2..<65] (bit_set (take 8 (drop 4 bs))) (drop 12 bs) of
        Inl e \<Rightarrow> Inl e
      | Inr f \<Rightarrow> Inr \<lparr>mti = take 4 bs, bits = f\<rparr>)"

text \<open>
  A message is valid within the dictionary's constraints when its MTI is four digits, the
  fields its MTI requires are present, and every field it holds is in the dictionary with a
  value of the dictionary's character class and length (exactly the width of a fixed
  field, at most the maximum of a variable one).
\<close>

definition value_ok :: "field_spec \<Rightarrow> string \<Rightarrow> bool" where
  "value_ok fs v =
     (class_ok (kind fs) v \<and>
      (case length_rule fs of
         Fixed n \<Rightarrow> length v = n
       | _ \<Rightarrow> length v \<le> max_len fs \<and> length v \<le> 99))"

definition valid_message :: "iso8583 \<Rightarrow> bool" where
  "valid_message m =
     (length (mti m) = 4 \<and> list_all is_digit (mti m)
      \<and> list_all (\<lambda>k. bits m k \<noteq> None) (required_fields (mti m))
      \<and> (\<forall>k \<in> dom (bits m). \<exists>fs. lookup k = Inr fs \<and> value_ok fs (the (bits m k))))"

section \<open>Decimal digits\<close>

lemma digit_char_0: "digit_char 0 = CHR ''0''"
  by code_simp

lemma digits_w_zero: "digits_w k 0 = replicate k (CHR ''0'')"
  by (induction k) (simp_all add: digit_char_0 replicate_append_same)

lemma dec_nonempty: "dec n \<noteq> []"
  by (subst dec.simps) simp

lemma dec_small: "n < 10 \<Longrightarrow> dec n = [digit_char n]"
  by (subst dec.simps) simp

lemma dec_large: "\<not> n < 10 \<Longrightarrow> dec n = dec (n div 10) @ [digit_char (n mod 10)]"
  by (subst dec.simps) simp

lemma zfill_snoc: "xs \<noteq> [] \<Longrightarrow> zfill (Suc k) (xs @ [d]) = zfill k xs @ [d]"
  by (simp add: zfill_def)

lemma zfill_single: "zfill (Suc k) [d] = replicate k (CHR ''0'') @ [d]"
  by (simp add: zfill_def)

lemma zfill_dec: "n < 10 ^ k \<Longrightarrow> 0 < k \<Longrightarrow> zfill k (dec n) = digits_w k n"
proof (induction k arbitrary: n)
  case 0
  then show ?case by simp
next
  case (Suc k)
  show ?case
  proof (cases "n < 10")
    case True
    then have "n div 10 = 0" by simp
    with True show ?thesis
      by (simp add: dec_small zfill_single digits_w_zero)
  next
    case False
    with Suc.prems have k: "0 < k" by (cases k) auto
    from Suc.prems have "n < 10 * 10 ^ k" by simp
    then have "n div 10 < 10 ^ k" by arith
    with Suc.IH k have "zfill k (dec (n div 10)) = digits_w k (n div 10)" by blast
    then show ?thesis using False
      by (simp add: dec_large zfill_snoc dec_nonempty)
  qed
qed

section \<open>The codec round trip\<close>

lemma byte_bits_bitmap_byte: "r < 8 \<Longrightarrow> byte_bits (bitmap_byte p j) ! r = p (8 * j + r + 1)"
proof -
  assume "r < 8"
  then consider "r = 0" | "r = 1" | "r = 2" | "r = 3" | "r = 4" | "r = 5" | "r = 6" | "r = 7"
    by linarith
  then show ?thesis
    by cases (auto simp add: byte_bits_def bitmap_byte_def intro!: arg_cong [where f = p])
qed

lemma bit_set_primary:
  assumes "1 \<le> k" "k \<le> 64"
  shows "bit_set (primary_bitmap f) k = (k \<noteq> 1 \<and> f k \<noteq> None)"
proof -
  have d: "(k - 1) div 8 < 8" using assms by simp
  have "8 * ((k - 1) div 8) + (k - 1) mod 8 + 1 = k" using assms by simp
  then show ?thesis using assms d
    by (simp add: bit_set_def primary_bitmap_def byte_bits_bitmap_byte)
qed

lemma of_char_digit_char: "d < 10 \<Longrightarrow> (of_char (digit_char d) :: nat) = 48 + d"
  by (simp add: digit_char_def)

lemma two_digits: "l \<le> 99 \<Longrightarrow> zfill 2 (dec l) = [digit_char (l div 10), digit_char (l mod 10)]"
proof -
  assume l: "l \<le> 99"
  then have "l < 10 ^ 2" by simp
  then have "zfill 2 (dec l) = digits_w 2 l" by (rule zfill_dec) simp
  moreover have "digits_w 2 l = [digit_char (l div 10 mod 10), digit_char (l mod 10)]"
    by (simp add: numeral_2_eq_2)
  moreover from l have "l div 10 mod 10 = l div 10" by simp
  ultimately show ?thesis by simp
qed

lemma pad_exact: "length v = n \<Longrightarrow> pad k n v = v"
  by (simp add: pad_def zfill_def)

lemma value_roundtrip:
  assumes "value_ok fs v"
  shows "\<exists>b. encode_value fs v = Inr b \<and> (\<forall>rest. decode_value fs (b @ rest) = Inr (v, rest))"
proof (cases "length_rule fs")
  case (Fixed n)
  with assms have "encode_value fs v = Inr v"
    by (simp add: value_ok_def encode_value_def pad_exact)
  moreover from Fixed assms have "\<forall>rest. decode_value fs (v @ rest) = Inr (v, rest)"
    by (simp add: value_ok_def decode_value_def)
  ultimately show ?thesis by blast
next
  case VariableLVAR
  from assms VariableLVAR have l: "length v \<le> 99" and m: "length v \<le> max_len fs"
    and c: "class_ok (kind fs) v"
    by (simp_all add: value_ok_def)
  let ?b = "[digit_char (length v div 10), digit_char (length v mod 10)] @ v"
  from l have d: "length v div 10 < 10" by simp
  have "encode_value fs v = Inr ?b"
    using VariableLVAR l m c by (simp add: encode_value_def two_digits)
  moreover have "\<forall>rest. decode_value fs (?b @ rest) = Inr (v, rest)"
    using VariableLVAR d
    by (simp add: decode_value_def is_digit_def digit_value_def of_char_digit_char Let_def)
  ultimately show ?thesis by blast
next
  case VariableLLVAR
  from assms VariableLLVAR have l: "length v \<le> 99" and m: "length v \<le> max_len fs"
    and c: "class_ok (kind fs) v"
    by (simp_all add: value_ok_def)
  let ?b = "[digit_char (length v div 10), digit_char (length v mod 10)] @ v"
  from l have d: "length v div 10 < 10" by simp
  have "encode_value fs v = Inr ?b"
    using VariableLLVAR l m c by (simp add: encode_value_def two_digits)
  moreover have "\<forall>rest. decode_value fs (?b @ rest) = Inr (v, rest)"
    using VariableLLVAR d
    by (simp add: decode_value_def is_digit_def digit_value_def of_char_digit_char Let_def)
  ultimately show ?thesis by blast
qed

lemma restrict_insert_Some: "f k = Some v \<Longrightarrow> (f |` A)(k \<mapsto> v) = f |` insert k A"
  by (rule ext) (simp add: restrict_map_def)

lemma restrict_insert_None: "f k = None \<Longrightarrow> f |` insert k A = f |` A"
  by (rule ext) (simp add: restrict_map_def)

lemma fields_roundtrip:
  assumes "\<And>k v. k \<in> set ks \<Longrightarrow> f k = Some v \<Longrightarrow> \<exists>fs. lookup k = Inr fs \<and> value_ok fs v"
    and "\<And>k. k \<in> set ks \<Longrightarrow> p k = (f k \<noteq> None)"
  shows "\<exists>b. encode_fields ks f = Inr b
           \<and> (\<forall>rest. decode_fields ks p (b @ rest) = Inr (f |` set ks))"
  using assms
proof (induction ks)
  case Nil
  show ?case by simp
next
  case (Cons k ks)
  from Cons.IH Cons.prems obtain b where
    e: "encode_fields ks f = Inr b"
    and d: "\<And>rest. decode_fields ks p (b @ rest) = Inr (f |` set ks)"
    by (metis list.set_intros(2))
  have pk: "p k = (f k \<noteq> None)" using Cons.prems(2) by simp
  show ?case
  proof (cases "f k")
    case None
    with pk e d show ?thesis by (simp add: restrict_insert_None)
  next
    case (Some v)
    with Cons.prems(1) obtain fs where fs: "lookup k = Inr fs" and ok: "value_ok fs v"
      by (metis list.set_intros(1))
    from value_roundtrip [OF ok] obtain bv where
      ev: "encode_value fs v = Inr bv"
      and dv: "\<And>rest. decode_value fs (bv @ rest) = Inr (v, rest)"
      by blast
    have "encode_fields (k # ks) f = Inr (bv @ b)"
      using Some fs ev e by simp
    moreover have "\<forall>rest. decode_fields (k # ks) p ((bv @ b) @ rest) = Inr (f |` set (k # ks))"
      using Some pk fs dv d by (simp add: restrict_insert_Some)
    ultimately show ?thesis by blast
  qed
qed

lemma lookup_range: "lookup k = Inr fs \<Longrightarrow> 2 \<le> k \<and> k < 65"
  by (simp add: lookup_def field_dictionary_def split: if_splits)

lemma length_primary_bitmap: "length (primary_bitmap f) = 8"
  by (simp add: primary_bitmap_def)

text \<open>
  C8: for every message that is valid within the dictionary's constraints, the encoder
  returns bytes and the decoder, run on these bytes, returns the same message, MTI and
  field map.
\<close>

theorem decode_encode_roundtrip:
  assumes "valid_message m"
  shows "\<exists>bs. encode m = Inr bs \<and> decode bs = Inr m"
proof -
  let ?f = "bits m"
  let ?p = "bit_set (primary_bitmap ?f)"
  from assms have len: "length (mti m) = 4"
    and req: "list_all (\<lambda>k. ?f k \<noteq> None) (required_fields (mti m))"
    and ok: "\<And>k. k \<in> dom ?f \<Longrightarrow> \<exists>fs. lookup k = Inr fs \<and> value_ok fs (the (?f k))"
    by (simp_all add: valid_message_def)
  have a1: "\<And>k v. k \<in> set [2..<65] \<Longrightarrow> ?f k = Some v
              \<Longrightarrow> \<exists>fs. lookup k = Inr fs \<and> value_ok fs v"
    using ok by (metis domI option.sel)
  have a2: "\<And>k. k \<in> set [2..<65] \<Longrightarrow> ?p k = (?f k \<noteq> None)"
  proof -
    fix k :: nat
    assume "k \<in> set [2..<65]"
    then have "1 \<le> k" "k \<le> 64" "k \<noteq> 1" by (simp_all only: set_upt atLeastLessThan_iff) linarith+
    then show "?p k = (?f k \<noteq> None)" by (simp only: bit_set_primary) simp
  qed
  from fields_roundtrip [of "[2..<65]" ?f ?p, OF a1 a2] obtain b where
    e: "encode_fields [2..<65] ?f = Inr b"
    and d: "\<And>rest. decode_fields [2..<65] ?p (b @ rest) = Inr (?f |` set [2..<65])"
    by blast
  have r: "?f |` set [2..<65] = ?f"
  proof (rule ext)
    fix k
    show "(?f |` set [2..<65]) k = ?f k"
    proof (cases "?f k")
      case None
      then show ?thesis by (simp add: restrict_map_def)
    next
      case (Some v)
      then have "k \<in> dom ?f" by blast
      with ok lookup_range have "2 \<le> k \<and> k < 65" by blast
      then have "k \<in> set [2..<65]" by (simp only: set_upt atLeastLessThan_iff)
      then show ?thesis by (simp only: restrict_in)
    qed
  qed
  let ?bs = "mti m @ primary_bitmap ?f @ b"
  have "encode m = Inr ?bs" using req e by (simp add: encode_def)
  moreover have "decode ?bs = Inr m"
    using len d [of "[]"] r by (simp add: decode_def length_primary_bitmap)
  ultimately show ?thesis by blast
qed

section \<open>The request message\<close>

lemma bits_build_request:
  "bits (build_request pan expiry cvv amount_cents now) =
     [2 \<mapsto> pan, 3 \<mapsto> ''000000'', 4 \<mapsto> format_012 amount_cents, 7 \<mapsto> strftime_mdHMS now,
      11 \<mapsto> ''123456'', 14 \<mapsto> expiry, 18 \<mapsto> ''5999'', 22 \<mapsto> ''901'', 25 \<mapsto> ''00'',
      35 \<mapsto> pan @ ''D'' @ expiry @ cvv, 41 \<mapsto> ''TERMID01'', 49 \<mapsto> ''840'']"
  by (simp add: build_request_def set_bit_def set_mti_def new_iso8583_def)

lemma mti_build_request: "mti (build_request pan expiry cvv amount_cents now) = ''0100''"
  by (simp add: build_request_def set_bit_def set_mti_def new_iso8583_def)

text \<open>
  C9: field 11 of the request is the constant \<open>123456\<close> whatever the inputs and the clock
  are, so the requests of any two calls carry the same trace number.
\<close>

theorem trace_number_constant:
  "bits (build_request pan expiry cvv amount_cents now) 11 = Some ''123456''
   \<and> bits (build_request pan expiry cvv amount_cents now) 11
       = bits (build_request pan' expiry' cvv' amount_cents' now') 11"
  by (simp add: bits_build_request)

text \<open>
  C10: field 35 of the request is the PAN, the letter D, the expiry and the CVV, in this
  order and unchanged.
\<close>

theorem track2_embeds_cvv:
  "bits (build_request pan expiry cvv amount_cents now) 35 = Some (pan @ ''D'' @ expiry @ cvv)"
  by (simp add: bits_build_request)

lemma is_digit_digit_char: "d < 10 \<Longrightarrow> is_digit (digit_char d)"
  by (simp add: is_digit_def of_char_digit_char)

lemma digits_w_digits: "list_all is_digit (digits_w k n)"
  by (induction k arbitrary: n) (simp_all add: is_digit_digit_char)

lemma length_digits_w: "length (digits_w k n) = k"
  by (induction k arbitrary: n) simp_all

lemma format_012_in_range:
  assumes "0 \<le> a" and "a < 10 ^ 12"
  shows "format_012 a = digits_w 12 (nat a)"
proof -
  from assms have "nat a < 10 ^ 12" by (simp add: nat_less_iff)
  then have "zfill 12 (dec (nat a)) = digits_w 12 (nat a)" by (rule zfill_dec) simp
  with assms(1) show ?thesis by (simp add: format_012_def)
qed

text \<open>
  C4, as amended: for every request the message has MTI \<open>0100\<close>, exactly the fields 2, 3,
  4, 7, 11, 14, 18, 22, 25, 35, 41 and 49, and field 3 \<open>000000\<close>; for an amount from 0 up to
  999999999999 cents field 4 is the amount as 12 decimal digits, zeros first.
\<close>

theorem request_message_shape:
  "mti (build_request pan expiry cvv amount_cents now) = ''0100''
   \<and> dom (bits (build_request pan expiry cvv amount_cents now))
       = {2, 3, 4, 7, 11, 14, 18, 22, 25, 35, 41, 49}
   \<and> bits (build_request pan expiry cvv amount_cents now) 3 = Some ''000000''
   \<and> (0 \<le> amount_cents \<and> amount_cents < 10 ^ 12 \<longrightarrow>
        bits (build_request pan expiry cvv amount_cents now) 4
          = Some (digits_w 12 (nat amount_cents))
        \<and> length (digits_w 12 (nat amount_cents)) = 12
        \<and> list_all is_digit (digits_w 12 (nat amount_cents)))"
proof -
  have "dom (bits (build_request pan expiry cvv amount_cents now))
       = {2, 3, 4, 7, 11, 14, 18, 22, 25, 35, 41, 49}"
    by (auto simp add: bits_build_request)
  then show ?thesis
    by (simp add: mti_build_request bits_build_request format_012_in_range length_digits_w
          digits_w_digits)
qed

theorem request_message_shape_witness:
  "bits (build_request ''4111111111111111'' ''2512'' ''123'' 1000
      \<lparr>dt_month = 3, dt_day = 14, dt_hour = 15, dt_minute = 9, dt_second = 26\<rparr>) 4
     = Some ''000000001000''"
proof -
  have "format_012 1000 = ''000000001000''" by code_simp
  moreover have "format_012 1000 = digits_w 12 (nat 1000)"
    by (rule format_012_in_range) simp_all
  ultimately have "digits_w 12 (nat 1000) = ''000000001000''" by (simp only:)
  moreover have "(0::int) \<le> 1000 \<and> (1000::int) < 10 ^ 12" by simp
  ultimately show ?thesis
    using request_message_shape [of "''4111111111111111''" "''2512''" "''123''" 1000
        "\<lparr>dt_month = 3, dt_day = 14, dt_hour = 15, dt_minute = 9, dt_second = 26\<rparr>"]
    by (simp only:)
qed

text \<open>
  The claim as stated, with field 4 a 12-digit string for every request, fails: the format
  \<open>012\<close> gives a minimum width, so an amount of 1000000000000 cents is printed with its 13
  digits, and a negative amount is printed with its sign.
\<close>

theorem amount_field_not_twelve_digits:
  "bits (build_request ''4111111111111111'' ''2512'' ''123'' 1000000000000
      \<lparr>dt_month = 3, dt_day = 14, dt_hour = 15, dt_minute = 9, dt_second = 26\<rparr>) 4
     = Some ''1000000000000''
   \<and> length ''1000000000000'' = 13
   \<and> bits (build_request ''4111111111111111'' ''2512'' ''123'' (- 5)
      \<lparr>dt_month = 3, dt_day = 14, dt_hour = 15, dt_minute = 9, dt_second = 26\<rparr>) 4
     = Some ''-00000000005''"
proof -
  have d1: "digit_char (Suc 0) = CHR ''1''" by code_simp
  have d5: "digit_char 5 = CHR ''5''" by code_simp
  have "dec 1000000000000 = ''1000000000000''"
    by (simp add: dec_large dec_small digit_char_0 d1)
  then have big: "format_012 1000000000000 = ''1000000000000''"
    by (simp add: format_012_def zfill_def)
  have "replicate 10 (CHR ''0'') = ''0000000000''"
    by (simp add: numeral_eq_Suc)
  then have neg: "format_012 (- 5) = ''-00000000005''"
    by (simp add: format_012_def zfill_def dec_small d5)
  from big neg show ?thesis by (simp add: bits_build_request)
qed

section \<open>The receive loop\<close>

lemma recv_arrivals:
  "\<exists>chunk cs'. recv n (map Arrive cs) = (Inr chunk, map Arrive cs')
      \<and> concat cs = chunk @ concat cs' \<and> length chunk \<le> n
      \<and> (chunk = [] \<and> 0 < n \<longrightarrow> concat cs = [] \<and> cs' = [])"
proof (induction cs)
  case Nil
  show ?case by simp
next
  case (Cons c cs)
  show ?case
  proof (cases "c = []")
    case True
    with Cons show ?thesis by simp
  next
    case False
    show ?thesis
    proof (cases "length c \<le> n")
      case True
      with False show ?thesis by auto
    next
      case False
      with \<open>c \<noteq> []\<close> have "recv n (map Arrive (c # cs)) = (Inr (take n c), map Arrive (drop n c # cs))"
        by simp
      moreover have "concat (c # cs) = take n c @ concat (drop n c # cs)" by simp
      moreover have "length (take n c) \<le> n" by simp
      moreover have "take n c = [] \<and> 0 < n \<longrightarrow> concat (c # cs) = [] \<and> drop n c # cs = []"
        using \<open>c \<noteq> []\<close> by auto
      ultimately show ?thesis by blast
    qed
  qed
qed

lemma recv_body_short:
  "length response + length (concat cs) < len \<Longrightarrow>
     recv_body len response (map Arrive cs)
       = (Inl (PlainException ''Socket connection broken''), [])"
proof (induction len response "map Arrive cs" arbitrary: cs rule: recv_body.induct)
  case (1 len response)
  from "1.prems" have lt: "length response < len" by simp
  then have pos: "0 < len - length response" by simp
  obtain chunk cs' where r: "recv (len - length response) (map Arrive cs) = (Inr chunk, map Arrive cs')"
    and c: "concat cs = chunk @ concat cs'"
    and e: "chunk = [] \<and> 0 < len - length response \<longrightarrow> concat cs = [] \<and> cs' = []"
    using recv_arrivals [of "len - length response" cs] by blast
  show ?case
  proof (cases "chunk = []")
    case True
    with e pos have "cs' = []" by blast
    with True lt r show ?thesis by (simp add: recv_body.simps [of len response])
  next
    case False
    from "1.prems" c have "length (response @ chunk) + length (concat cs') < len" by simp
    with "1.hyps" [OF lt r [symmetric] refl False]
    have "recv_body len (response @ chunk) (map Arrive cs')
            = (Inl (PlainException ''Socket connection broken''), [])"
      by blast
    with lt r False show ?thesis by (simp add: recv_body.simps [of len response])
  qed
qed

lemma recv_body_complete:
  "length response \<le> len \<Longrightarrow> len \<le> length response + length (concat cs) \<Longrightarrow>
     fst (recv_body len response (map Arrive cs)) = Inr (response @ take (len - length response) (concat cs))"
proof (induction len response "map Arrive cs" arbitrary: cs rule: recv_body.induct)
  case (1 len response)
  show ?case
  proof (cases "length response < len")
    case False
    with "1.prems" show ?thesis by (simp add: recv_body.simps [of len response])
  next
    case lt: True
    obtain chunk cs' where r: "recv (len - length response) (map Arrive cs) = (Inr chunk, map Arrive cs')"
      and c: "concat cs = chunk @ concat cs'" and le: "length chunk \<le> len - length response"
      and e: "chunk = [] \<and> 0 < len - length response \<longrightarrow> concat cs = [] \<and> cs' = []"
      using recv_arrivals [of "len - length response" cs] by blast
    from lt "1.prems" have pos: "0 < length (concat cs)" by linarith
    have "concat cs \<noteq> []"
    proof
      assume "concat cs = []"
      then have "length (concat cs) = 0" by (simp only: list.size)
      with pos show False by linarith
    qed
    moreover from lt have "0 < len - length response" by simp
    ultimately have ne: "chunk \<noteq> []" using e by blast
    from le lt have p1: "length (response @ chunk) \<le> len" by simp
    from "1.prems" c have p2: "len \<le> length (response @ chunk) + length (concat cs')" by simp
    from "1.hyps" [OF lt r [symmetric] refl ne p1 p2]
    have "fst (recv_body len (response @ chunk) (map Arrive cs'))
            = Inr ((response @ chunk) @ take (len - length (response @ chunk)) (concat cs'))" .
    moreover have "chunk @ take (len - length (response @ chunk)) (concat cs')
                     = take (len - length response) (concat cs)"
      using c le by simp
    ultimately show ?thesis using lt r ne by (simp add: recv_body.simps [of len response])
  qed
qed


section \<open>The exchange\<close>

lemma exchange:
  assumes "get_network_message c (build_request pan expiry cvv amount_cents now) = Inr msg"
    and "socket_fault net = None"
    and "connect_fault net host port = None"
    and "pack_H (length msg) = Inr hdr"
    and "send_fault net = None"
  shows "send_iso_authorization c net now host port pan expiry cvv amount_cents =
     (case recv_frame (peer net (hdr @ msg)) of
        (Inl e, pending) \<Rightarrow>
          (failure e, Some \<lparr>status = Connected, sent = hdr @ msg, rx = pending\<rparr>)
      | (Inr response, pending) \<Rightarrow>
          (case set_network_message c response of
             Inl e \<Rightarrow> (failure e, Some \<lparr>status = Closed, sent = hdr @ msg, rx = pending\<rparr>)
           | Inr m \<Rightarrow> (decision m, Some \<lparr>status = Closed, sent = hdr @ msg, rx = pending\<rparr>)))"
  using assms
  by (simp add: send_iso_authorization_def try_block_def Let_def sendall_def
        split: prod.splits sum.splits)




lemma decision_fields:
  "decision m ''approved'' = Some (PyBool (bits m 39 = Some ''00''))
   \<and> decision m ''field39'' = Some (get_bit 39 m)
   \<and> decision m ''mti'' = Some (PyStr (mti m))
   \<and> decision m ''amount_received'' = Some (get_bit 4 m)
   \<and> decision m ''transaction_time'' = Some (get_bit 12 m)"
  by (simp add: decision_def get_bit_def get_mti_def split: option.splits)

lemma unpack_pack: "n \<le> 65535 \<Longrightarrow> unpack_H [char_of (n div 256), char_of (n mod 256)] = Inr n"
  by simp



section \<open>The decision\<close>

text \<open>
  C3: when the exchange succeeds and the response decodes to a message \<open>m\<close>, the result's
  \<open>approved\<close> is true exactly when field 39 of \<open>m\<close> is \<open>00\<close>, and the result carries field
  39, the MTI, field 4 and field 12 of \<open>m\<close> (\<open>None\<close> for a field that is not present); a
  response with field 39 \<open>05\<close> gives \<open>approved\<close> false with \<open>field39\<close> \<open>05\<close>.
\<close>

theorem approval_mapping:
  assumes "get_network_message c (build_request pan expiry cvv amount_cents now) = Inr msg"
    and "socket_fault net = None"
    and "connect_fault net host port = None"
    and "pack_H (length msg) = Inr hdr"
    and "send_fault net = None"
    and "fst (recv_frame (peer net (hdr @ msg))) = Inr response"
    and "set_network_message c response = Inr m"
  shows "let r = fst (send_iso_authorization c net now host port pan expiry cvv amount_cents)
         in r ''approved'' = Some (PyBool (bits m 39 = Some ''00''))
          \<and> r ''field39'' = Some (case bits m 39 of None \<Rightarrow> PyNone | Some v \<Rightarrow> PyStr v)
          \<and> r ''mti'' = Some (PyStr (mti m))
          \<and> r ''amount_received'' = Some (case bits m 4 of None \<Rightarrow> PyNone | Some v \<Rightarrow> PyStr v)
          \<and> r ''transaction_time'' = Some (case bits m 12 of None \<Rightarrow> PyNone | Some v \<Rightarrow> PyStr v)
          \<and> (bits m 39 = Some ''05''
                \<longrightarrow> r ''approved'' = Some (PyBool False) \<and> r ''field39'' = Some (PyStr ''05''))"
proof -
  obtain pending where "recv_frame (peer net (hdr @ msg)) = (Inr response, pending)"
    using assms(6) by (cases "recv_frame (peer net (hdr @ msg))") simp
  with assms have "fst (send_iso_authorization c net now host port pan expiry cvv amount_cents)
      = decision m"
    by (simp add: exchange)
  then show ?thesis
    using decision_fields [of m] by (auto simp add: Let_def get_bit_def)
qed

theorem approval_mapping_witness:
  "fst (send_iso_authorization
      \<lparr>get_network_message = (\<lambda>m. Inr (mti m)),
       set_network_message = (\<lambda>bs. Inr \<lparr>mti = take 4 bs, bits = [39 \<mapsto> drop 4 bs]\<rparr>)\<rparr>
      \<lparr>socket_fault = None, connect_fault = (\<lambda>h p. None), send_fault = None,
       peer = (\<lambda>bs. [Arrive [CHR 0x00, CHR 0x06], Arrive ''011005''])\<rparr>
      \<lparr>dt_month = 3, dt_day = 14, dt_hour = 15, dt_minute = 9, dt_second = 26\<rparr>
      ''10.0.0.1'' 8583 ''4111111111111111'' ''2512'' ''123'' 1000) ''approved''
     = Some (PyBool False)
   \<and> fst (send_iso_authorization
      \<lparr>get_network_message = (\<lambda>m. Inr (mti m)),
       set_network_message = (\<lambda>bs. Inr \<lparr>mti = take 4 bs, bits = [39 \<mapsto> drop 4 bs]\<rparr>)\<rparr>
      \<lparr>socket_fault = None, connect_fault = (\<lambda>h p. None), send_fault = None,
       peer = (\<lambda>bs. [Arrive [CHR 0x00, CHR 0x06], Arrive ''011005''])\<rparr>
      \<lparr>dt_month = 3, dt_day = 14, dt_hour = 15, dt_minute = 9, dt_second = 26\<rparr>
      ''10.0.0.1'' 8583 ''4111111111111111'' ''2512'' ''123'' 1000) ''field39''
     = Some (PyStr ''05'')"
proof -
  let ?c = "\<lparr>get_network_message = (\<lambda>m. Inr (mti m)),
       set_network_message = (\<lambda>bs. Inr \<lparr>mti = take 4 bs, bits = [39 \<mapsto> drop 4 bs]\<rparr>)\<rparr>"
  let ?net = "\<lparr>socket_fault = None, connect_fault = (\<lambda>h p. None), send_fault = None,
       peer = (\<lambda>bs. [Arrive [CHR 0x00, CHR 0x06], Arrive ''011005''])\<rparr>"
  let ?now = "\<lparr>dt_month = 3, dt_day = 14, dt_hour = 15, dt_minute = 9, dt_second = 26\<rparr>"
  have h1: "get_network_message ?c (build_request ''4111111111111111'' ''2512'' ''123'' 1000 ?now)
              = Inr ''0100''"
    by (simp add: mti_build_request)
  have h4: "pack_H (length ''0100'') = Inr [char_of (0::nat), char_of (4::nat)]"
    by (simp add: pack_H_def)
  have h6: "fst (recv_frame (peer ?net ([char_of (0::nat), char_of (4::nat)] @ ''0100'')))
              = Inr ''011005''"
  proof -
    have "fst (recv_frame [Arrive [CHR 0x00, CHR 0x06], Arrive ''011005'']) = Inr ''011005''"
      by code_simp
    then show ?thesis by simp
  qed
  have h7: "set_network_message ?c ''011005'' = Inr \<lparr>mti = ''0110'', bits = [39 \<mapsto> ''05'']\<rparr>"
    by simp
  show ?thesis
    using approval_mapping [of ?c "''4111111111111111''" "''2512''" "''123''" 1000 ?now "''0100''"
        ?net "''10.0.0.1''" 8583 "[char_of (0::nat), char_of (4::nat)]" "''011005''"
        "\<lparr>mti = ''0110'', bits = [39 \<mapsto> ''05'']\<rparr>", OF h1 _ _ h4 _ h6 h7]
    by (simp add: Let_def)
qed

section \<open>The socket at the exit\<close>

text \<open>
  C2: the claim that the socket is closed on every exit path fails. \<open>sock.close()\<close> stands
  after the receive loop only, and no \<open>finally\<close> clause closes the socket when a statement
  raises: here the peer announces 6 bytes, delivers 4 and closes, the loop raises, and the
  call returns with the socket still connected.
\<close>

theorem socket_left_open:
  "map_option status (snd (send_iso_authorization
      \<lparr>get_network_message = (\<lambda>m. Inr (mti m)),
       set_network_message = (\<lambda>bs. Inr \<lparr>mti = take 4 bs, bits = [39 \<mapsto> drop 4 bs]\<rparr>)\<rparr>
      \<lparr>socket_fault = None, connect_fault = (\<lambda>h p. None), send_fault = None,
       peer = (\<lambda>bs. [Arrive [CHR 0x00, CHR 0x06], Arrive ''0110''])\<rparr>
      \<lparr>dt_month = 3, dt_day = 14, dt_hour = 15, dt_minute = 9, dt_second = 26\<rparr>
      ''10.0.0.1'' 8583 ''4111111111111111'' ''2512'' ''123'' 1000)) = Some Connected"
proof -
  let ?c = "\<lparr>get_network_message = (\<lambda>m. Inr (mti m)),
       set_network_message = (\<lambda>bs. Inr \<lparr>mti = take 4 bs, bits = [39 \<mapsto> drop 4 bs]\<rparr>)\<rparr>"
  let ?net = "\<lparr>socket_fault = None, connect_fault = (\<lambda>h p. None), send_fault = None,
       peer = (\<lambda>bs. [Arrive [CHR 0x00, CHR 0x06], Arrive ''0110''])\<rparr>"
  let ?now = "\<lparr>dt_month = 3, dt_day = 14, dt_hour = 15, dt_minute = 9, dt_second = 26\<rparr>"
  have h1: "get_network_message ?c (build_request ''4111111111111111'' ''2512'' ''123'' 1000 ?now)
              = Inr ''0100''"
    by (simp add: mti_build_request)
  have h2: "socket_fault ?net = None" by simp
  have h3: "connect_fault ?net ''10.0.0.1'' 8583 = None" by simp
  have h4: "pack_H (length ''0100'') = Inr [char_of (0::nat), char_of (4::nat)]"
    by (simp add: pack_H_def)
  have h5: "send_fault ?net = None" by simp
  have rf: "recv_frame [Arrive [CHR 0x00, CHR 0x06], Arrive ''0110'']
              = (Inl (PlainException ''Socket connection broken''), [])"
    by code_simp
  show ?thesis
    by (simp only: exchange [OF h1 h2 h3 h4 h5]) (simp add: rf)
qed

section \<open>The length header\<close>

text \<open>
  C6: the claim that a header split across two arrivals is still read fails. The header is
  read by a single \<open>recv(2)\<close>, with no loop such as the one that reads the body: when the
  first arrival holds one byte the call raises, although the peer has closed nothing and the
  whole frame is on its way. The same frame with the header in one arrival is read.
\<close>

theorem split_header_rejected:
  "recv_frame [Arrive [CHR 0x00], Arrive [CHR 0x02], Arrive ''00'']
     = (Inl (PlainException ''Incomplete 2-byte header received''),
        [Arrive [CHR 0x02], Arrive ''00''])
   \<and> fst (recv_frame [Arrive [CHR 0x00, CHR 0x02], Arrive ''00'']) = Inr ''00''"
  by code_simp

section \<open>The body of the frame\<close>

lemma unpack_H_length: "unpack_H bs = Inr n \<Longrightarrow> length bs = 2"
  by (cases bs rule: unpack_H.cases) simp_all

lemma short_body_reads_to_close:
  assumes "recv 2 (map Arrive cs) = (Inr raw_len, pending)"
    and "unpack_H raw_len = Inr len"
    and "length (concat cs) < 2 + len"
  shows "recv_frame (map Arrive cs) = (Inl (PlainException ''Socket connection broken''), [])"
proof -
  obtain chunk cs' where r: "recv 2 (map Arrive cs) = (Inr chunk, map Arrive cs')"
    and c: "concat cs = chunk @ concat cs'"
    using recv_arrivals [of 2 cs] by blast
  from r assms(1) have eq: "raw_len = chunk" "pending = map Arrive cs'" by simp_all
  from assms(2) have l2: "length raw_len = 2" by (rule unpack_H_length)
  from assms(3) c eq l2 have "length ([] :: bytes) + length (concat cs') < len" by simp
  then have "recv_body len [] (map Arrive cs')
               = (Inl (PlainException ''Socket connection broken''), [])"
    by (rule recv_body_short)
  with r eq l2 assms(2) show ?thesis by (simp add: recv_frame_def)
qed

text \<open>
  C5: the claim that every stream which delivers the whole 2-byte header and closes before
  the announced body has arrived is read up to the close and fails as a short body does not
  hold of the code. When the header arrives whole (\<open>short_body_reads_to_close\<close>) the loop
  reads every arrival up to the close, raises \<open>Socket connection broken\<close> and returns no
  body. When the same bytes arrive with the header split over two arrivals, the single
  \<open>recv(2)\<close> of line 38 raises \<open>Incomplete 2-byte header received\<close> after the first byte,
  and the second header byte and the body are never read: the peer below announces 6 bytes,
  delivers 4 and closes.
\<close>

theorem short_body_behind_split_header:
  "recv_frame [Arrive [CHR 0x00], Arrive [CHR 0x06], Arrive ''0110'']
     = (Inl (PlainException ''Incomplete 2-byte header received''),
        [Arrive [CHR 0x06], Arrive ''0110''])
   \<and> recv_frame [Arrive [CHR 0x00, CHR 0x06], Arrive ''0110'']
     = (Inl (PlainException ''Socket connection broken''), [])"
  by code_simp

section \<open>The frame sent\<close>

text \<open>
  C7: for an encoded request of at most 65535 bytes, the two header bytes are the length
  of the request, most significant byte first, and what leaves through the socket is a
  prefix of header and request: the whole of it when no step before the receive raises,
  the first \<open>k\<close> bytes when \<open>sendall\<close> raises after writing \<open>k\<close> bytes.
  For a longer request \<open>struct.pack\<close> raises, nothing leaves through the socket, and the
  call returns the failure dictionary of that exception.
\<close>

theorem frame_carries_length_prefix:
  assumes "get_network_message c (build_request pan expiry cvv amount_cents now) = Inr msg"
  shows "let (r, s) = send_iso_authorization c net now host port pan expiry cvv amount_cents;
             hdr = [char_of (length msg div 256), char_of (length msg mod 256)]
         in (length msg \<le> 65535 \<longrightarrow>
               unpack_H hdr = Inr (length msg)
               \<and> (\<exists>k. transmitted s = take k (hdr @ msg))
               \<and> (socket_fault net = None \<and> connect_fault net host port = None
                    \<and> send_fault net = None \<longrightarrow> transmitted s = hdr @ msg)
               \<and> (\<forall>k e. socket_fault net = None \<and> connect_fault net host port = None
                    \<and> send_fault net = Some (k, e)
                    \<longrightarrow> transmitted s = take k (hdr @ msg) \<and> r = failure e))
          \<and> (65535 < length msg \<longrightarrow>
               transmitted s = []
               \<and> (socket_fault net = None \<and> connect_fault net host port = None
                    \<longrightarrow> r = failure
                          (StructError (CHR 0x27 # ''H'' @ CHR 0x27 # '' format requires 0 <= number <= 65535''))))"
proof -
  let ?hdr = "[char_of (length msg div 256), char_of (length msg mod 256)]"
  obtain r s where rs: "send_iso_authorization c net now host port pan expiry cvv amount_cents = (r, s)"
    by (cases "send_iso_authorization c net now host port pan expiry cvv amount_cents")
  have big: "65535 < length msg \<Longrightarrow> transmitted s = []
               \<and> (socket_fault net = None \<and> connect_fault net host port = None
                    \<longrightarrow> r = failure
                          (StructError (CHR 0x27 # ''H'' @ CHR 0x27 # '' format requires 0 <= number <= 65535'')))"
    using rs assms
    by (auto simp add: send_iso_authorization_def try_block_def Let_def pack_H_def transmitted_def
          split: option.splits)
  have small1: "length msg \<le> 65535 \<Longrightarrow> \<exists>k. transmitted s = take k (?hdr @ msg)"
  proof -
    assume le: "length msg \<le> 65535"
    have "transmitted s = [] \<or> transmitted s = ?hdr @ msg
            \<or> (\<exists>k. transmitted s = take k (?hdr @ msg))"
      using rs assms le
      by (auto simp add: send_iso_authorization_def try_block_def Let_def pack_H_def
            transmitted_def sendall_def split: option.splits prod.splits sum.splits)
    moreover have "transmitted s = [] \<Longrightarrow> transmitted s = take 0 (?hdr @ msg)" by simp
    moreover have "transmitted s = ?hdr @ msg
                     \<Longrightarrow> transmitted s = take (length (?hdr @ msg)) (?hdr @ msg)"
      by simp
    ultimately show ?thesis by blast
  qed
  have small2: "length msg \<le> 65535 \<Longrightarrow> socket_fault net = None
      \<Longrightarrow> connect_fault net host port = None \<Longrightarrow> send_fault net = None
      \<Longrightarrow> transmitted s = ?hdr @ msg"
    using rs assms
    by (auto simp add: send_iso_authorization_def try_block_def Let_def pack_H_def
          transmitted_def sendall_def split: option.splits prod.splits sum.splits)
  have small3: "\<And>k e. length msg \<le> 65535 \<Longrightarrow> socket_fault net = None
      \<Longrightarrow> connect_fault net host port = None \<Longrightarrow> send_fault net = Some (k, e)
      \<Longrightarrow> transmitted s = take k (?hdr @ msg) \<and> r = failure e"
    using rs assms
    by (auto simp add: send_iso_authorization_def try_block_def Let_def pack_H_def
          transmitted_def sendall_def split: option.splits prod.splits sum.splits)
  show ?thesis
    using big small1 small2 small3 unpack_pack [of "length msg"]
    unfolding Let_def rs prod.case by blast
qed

theorem frame_carries_length_prefix_witness:
  "transmitted (snd (send_iso_authorization
      \<lparr>get_network_message = (\<lambda>m. Inr (mti m)),
       set_network_message = (\<lambda>bs. Inl (CodecError ''unused''))\<rparr>
      \<lparr>socket_fault = None, connect_fault = (\<lambda>h p. None), send_fault = None,
       peer = (\<lambda>bs. [])\<rparr>
      \<lparr>dt_month = 3, dt_day = 14, dt_hour = 15, dt_minute = 9, dt_second = 26\<rparr>
      ''10.0.0.1'' 8583 ''4111111111111111'' ''2512'' ''123'' 1000))
     = [char_of (0::nat), char_of (4::nat)] @ ''0100''
   \<and> transmitted (snd (send_iso_authorization
      \<lparr>get_network_message = (\<lambda>m. Inr (replicate 65536 (CHR ''0''))),
       set_network_message = (\<lambda>bs. Inl (CodecError ''unused''))\<rparr>
      \<lparr>socket_fault = None, connect_fault = (\<lambda>h p. None), send_fault = None,
       peer = (\<lambda>bs. [])\<rparr>
      \<lparr>dt_month = 3, dt_day = 14, dt_hour = 15, dt_minute = 9, dt_second = 26\<rparr>
      ''10.0.0.1'' 8583 ''4111111111111111'' ''2512'' ''123'' 1000)) = []"
proof -
  let ?c = "\<lparr>get_network_message = (\<lambda>m. Inr (mti m)),
       set_network_message = (\<lambda>bs. Inl (CodecError ''unused''))\<rparr>"
  let ?big = "\<lparr>get_network_message = (\<lambda>m. Inr (replicate 65536 (CHR ''0''))),
       set_network_message = (\<lambda>bs. Inl (CodecError ''unused''))\<rparr>"
  let ?net = "\<lparr>socket_fault = None, connect_fault = (\<lambda>h p. None), send_fault = None,
       peer = (\<lambda>bs. [])\<rparr>"
  let ?now = "\<lparr>dt_month = 3, dt_day = 14, dt_hour = 15, dt_minute = 9, dt_second = 26\<rparr>"
  have g1: "get_network_message ?c (build_request ''4111111111111111'' ''2512'' ''123'' 1000 ?now)
              = Inr ''0100''"
    by (simp add: mti_build_request)
  have g2: "get_network_message ?big (build_request ''4111111111111111'' ''2512'' ''123'' 1000 ?now)
              = Inr (replicate 65536 (CHR ''0''))"
    by (simp)
  show ?thesis
    using frame_carries_length_prefix [OF g1, of ?net "''10.0.0.1''" 8583]
      frame_carries_length_prefix [OF g2, of ?net "''10.0.0.1''" 8583]
    by (simp add: Let_def split_beta)
qed

section \<open>The round trip on the request of the end-to-end test\<close>

lemma request_is_valid:
  "valid_message (build_request ''4111111111111111'' ''2512'' ''123'' 1000
     \<lparr>dt_month = 3, dt_day = 14, dt_hour = 15, dt_minute = 9, dt_second = 26\<rparr>)"
proof -
  have a: "format_012 1000 = ''000000001000''" by code_simp
  have t: "strftime_mdHMS \<lparr>dt_month = 3, dt_day = 14, dt_hour = 15, dt_minute = 9, dt_second = 26\<rparr>
             = ''0314150926''"
    by code_simp
  show ?thesis
    unfolding valid_message_def
    by (simp add: bits_build_request mti_build_request required_fields_def is_digit_def a t
          lookup_def field_dictionary_def value_ok_def is_alnum_def)
qed

theorem decode_encode_roundtrip_witness:
  "\<exists>bs. encode (build_request ''4111111111111111'' ''2512'' ''123'' 1000
            \<lparr>dt_month = 3, dt_day = 14, dt_hour = 15, dt_minute = 9, dt_second = 26\<rparr>) = Inr bs
     \<and> decode bs = Inr (build_request ''4111111111111111'' ''2512'' ''123'' 1000
            \<lparr>dt_month = 3, dt_day = 14, dt_hour = 15, dt_minute = 9, dt_second = 26\<rparr>)"
  using decode_encode_roundtrip [OF request_is_valid] .

end
